theory Spec2Isabelle
  imports Complex_Main "HOL-Library.Word"
begin

section \<open>Numbers and their string forms\<close>

text \<open>
  The script is JavaScript. Its numbers are modelled as exact rationals: channel values
  are integers in \<open>0..255\<close>, and the mix ratio is a rational. Strings are \<open>char list\<close>.
\<close>

type_synonym number = rat

datatype error = TypeError | IOError | LibraryError

text \<open>The digit characters \<open>Number.prototype.toString\<close> produces (lowercase).\<close>

definition digitChar :: "nat \<Rightarrow> char" where
  "digitChar d = ''0123456789abcdef'' ! d"

text \<open>\<open>n.toString(radix)\<close> for a non-negative integer: most significant digit first.\<close>

function natToString :: "nat \<Rightarrow> nat \<Rightarrow> string" where
  "natToString radix n =
     (if n < radix \<or> radix < 2 then [digitChar n]
      else natToString radix (n div radix) @ [digitChar (n mod radix)])"
  by pat_completeness auto
termination
  by (relation "measure (\<lambda>(radix, n). n)") auto

text \<open>\<open>x.toString(16)\<close> for an integer \<open>x\<close>; a negative number prints its sign.\<close>

definition toString16 :: "int \<Rightarrow> string" where
  "toString16 x =
     (if x < 0 then CHR ''-'' # natToString 16 (nat (- x)) else natToString 16 (nat x))"

text \<open>\<open>Math.round\<close>: the nearest integer, a tie going up.\<close>

definition Math_round :: "number \<Rightarrow> int" where
  "Math_round x = \<lfloor>x + 1 / 2\<rfloor>"

section \<open>mixColors\<close>

text \<open>The character class \<open>[a-f\d]\<close> under the \<open>i\<close> flag.\<close>

definition hexClass :: "char \<Rightarrow> bool" where
  "hexClass c \<longleftrightarrow> c \<in> set ''0123456789abcdefABCDEF''"

text \<open>The value \<open>parseInt\<close> gives a digit in radix 16.\<close>

definition hexValue :: "char \<Rightarrow> nat" where
  "hexValue c =
     (let n = (of_char c :: nat) in
      if 48 \<le> n \<and> n \<le> 57 then n - 48
      else if 97 \<le> n \<and> n \<le> 102 then n - 87
      else n - 55)"

text \<open>\<open>parseInt(s, 16)\<close> on a captured group, which holds hex digits only.\<close>

definition parseInt16 :: "string \<Rightarrow> nat" where
  "parseInt16 s = foldl (\<lambda>acc c. 16 * acc + hexValue c) 0 s"

text \<open>
  \<open>hexToRgb\<close>: the regular expression \<open>/^#?([a-f\d]{2})([a-f\d]{2})([a-f\d]{2})$/i\<close>
  matches an optional \<open>#\<close> and then exactly six hex digits up to the end of the input.
  The result is the three parsed channels, or \<open>None\<close> for JavaScript's \<open>null\<close>.
\<close>

definition hexToRgb :: "string \<Rightarrow> (nat \<times> nat \<times> nat) option" where
  "hexToRgb hex =
     (let ds = (case hex of c # t \<Rightarrow> if c = CHR ''#'' then t else hex | [] \<Rightarrow> hex) in
      if length ds = 6 \<and> list_all hexClass ds
      then Some (parseInt16 (take 2 ds), parseInt16 (take 2 (drop 2 ds)),
                 parseInt16 (take 2 (drop 4 ds)))
      else None)"

text \<open>\<open>rgbToHex\<close>: each channel rounded, printed in hex, and padded when one digit long.\<close>

definition channelHex :: "number \<Rightarrow> string" where
  "channelHex x =
     (let hex = toString16 (Math_round x) in
      if length hex = 1 then CHR ''0'' # hex else hex)"

definition rgbToHex :: "number \<Rightarrow> number \<Rightarrow> number \<Rightarrow> string" where
  "rgbToHex rv gv bv = CHR ''#'' # concat (map channelHex [rv, gv, bv])"

text \<open>
  \<open>mixColors\<close>. Reading \<open>rgb1.r\<close> when \<open>hexToRgb\<close> returned \<open>null\<close> throws a
  \<open>TypeError\<close>; that is the \<open>Inl\<close> branch.
\<close>

definition mixColors :: "string \<Rightarrow> string \<Rightarrow> number \<Rightarrow> error + string" where
  "mixColors color1 color2 ratio =
     (case hexToRgb color1 of
        None \<Rightarrow> Inl TypeError
      | Some (r1, g1, b1) \<Rightarrow>
          (case hexToRgb color2 of
             None \<Rightarrow> Inl TypeError
           | Some (r2, g2, b2) \<Rightarrow>
               Inr (rgbToHex (of_nat r1 * ratio + of_nat r2 * (1 - ratio))
                             (of_nat g1 * ratio + of_nat g2 * (1 - ratio))
                             (of_nat b1 * ratio + of_nat b2 * (1 - ratio)))))"

section \<open>The color model of the specification\<close>

text \<open>
  The specification's words, kept apart from the code above: a color is the seven
  characters \<open>#rrggbb\<close> with lowercase hex digits; a channel is read as sixteen times
  its first digit plus its second; a mix is the linear interpolation of each channel,
  rounded to the nearest integer, clamped into \<open>0..255\<close> and written as two digits.
\<close>

definition lowerHexDigit :: "char \<Rightarrow> bool" where
  "lowerHexDigit c \<longleftrightarrow> c \<in> set ''0123456789abcdef''"

definition validColor :: "string \<Rightarrow> bool" where
  "validColor s \<longleftrightarrow>
     length s = 7 \<and> take 1 s = ''#'' \<and> list_all lowerHexDigit (drop 1 s)"

definition digitOf :: "char \<Rightarrow> nat" where
  "digitOf c = length (takeWhile (\<lambda>d. d \<noteq> c) ''0123456789abcdef'')"

definition channelOf :: "string \<Rightarrow> nat \<Rightarrow> nat" where
  "channelOf s k = 16 * digitOf (s ! (1 + 2 * k)) + digitOf (s ! (2 + 2 * k))"

definition lerp :: "number \<Rightarrow> nat \<Rightarrow> nat \<Rightarrow> number" where
  "lerp ratio x y = ratio * of_nat x + (1 - ratio) * of_nat y"

definition clamp255 :: "int \<Rightarrow> int" where
  "clamp255 x = max 0 (min 255 x)"

definition twoHex :: "int \<Rightarrow> string" where
  "twoHex x = [digitChar (nat x div 16), digitChar (nat x mod 16)]"

definition mixSpec :: "string \<Rightarrow> string \<Rightarrow> number \<Rightarrow> string" where
  "mixSpec c1 c2 ratio =
     CHR ''#'' # concat (map (\<lambda>k. twoHex (clamp255 (round (lerp ratio (channelOf c1 k) (channelOf c2 k)))))
                            [0, 1, 2])"

text \<open>The pattern of six hex digits, with or without a leading \<open>#\<close>.\<close>

definition hexPattern :: "string \<Rightarrow> bool" where
  "hexPattern s \<longleftrightarrow>
     (length s = 6 \<and> list_all hexClass s) \<or>
     (length s = 7 \<and> take 1 s = ''#'' \<and> list_all hexClass (drop 1 s))"

section \<open>JSON values and token records\<close>

text \<open>
  A parsed JSON value. An object is the list of its own properties in the order
  \<open>for ... in\<close> and \<open>JSON.stringify\<close> enumerate them; its keys are distinct. (That
  order puts array-index keys first, ascending, and then the other keys as inserted.)
\<close>

datatype json =
    JNull
  | JBool bool
  | JNum number
  | JStr string
  | JArr "json list"
  | JObj "(string \<times> json) list"

text \<open>The truth value of a JSON value in a condition.\<close>

fun truthy :: "json \<Rightarrow> bool" where
  "truthy JNull = False"
| "truthy (JBool b) = b"
| "truthy (JNum n) = (n \<noteq> 0)"
| "truthy (JStr s) = (s \<noteq> [])"
| "truthy (JArr xs) = True"
| "truthy (JObj kvs) = True"

text \<open>
  Reading the property \<open>logoURI\<close> of a token: \<open>null\<close> throws, an object gives its
  field or \<open>undefined\<close> (\<open>None\<close>), and no string, array, number or boolean has such
  a property.
\<close>

fun getProp :: "json \<Rightarrow> string \<Rightarrow> error + json option" where
  "getProp JNull k = Inl TypeError"
| "getProp (JObj kvs) k = Inr (map_of kvs k)"
| "getProp v k = Inr None"

text \<open>The pairs \<open>(key, token[key])\<close> that \<open>for (const key in token)\<close> visits, in order.\<close>

fun forIn :: "json \<Rightarrow> (string \<times> json) list" where
  "forIn (JObj kvs) = kvs"
| "forIn (JArr xs) = zip (map (natToString 10) [0 ..< length xs]) xs"
| "forIn (JStr s) = zip (map (natToString 10) [0 ..< length s]) (map (\<lambda>c. JStr [c]) s)"
| "forIn v = []"

text \<open>
  The assignment \<open>obj[key] = v\<close>: an existing key keeps its place and takes the new
  value, a new key goes to the end. The merge loop below assigns the keys of a token in
  their enumeration order, so its array-index keys arrive first and ascending, and the
  three color keys are not array indices: the end is where each new key belongs.
\<close>

fun objSet :: "(string \<times> json) list \<Rightarrow> string \<Rightarrow> json \<Rightarrow> (string \<times> json) list" where
  "objSet [] k v = [(k, v)]"
| "objSet ((k', v') # kvs) k v =
     (if k' = k then (k, v) # kvs else (k', v') # objSet kvs k v)"

record colors =
  averageColor :: string
  dominantColor1 :: string
  dominantColor2 :: string

definition fallback :: colors where
  "fallback = \<lparr>averageColor = ''#000000'', dominantColor1 = ''#000000'',
                dominantColor2 = ''#ffffff''\<rparr>"

text \<open>
  The loop that builds \<open>newToken\<close>: every key is copied, and right after the key
  \<open>logoURI\<close> the three color keys are assigned.
\<close>

fun mergeLoop ::
  "(string \<times> json) list \<Rightarrow> colors \<Rightarrow> (string \<times> json) list \<Rightarrow> (string \<times> json) list" where
  "mergeLoop [] cs newToken = newToken"
| "mergeLoop ((key, v) # rest) cs newToken =
     (let t1 = objSet newToken key v;
          t2 = (if key = ''logoURI''
                then objSet (objSet (objSet t1 ''averageColor'' (JStr (averageColor cs)))
                                    ''dominantColor1'' (JStr (dominantColor1 cs)))
                            ''dominantColor2'' (JStr (dominantColor2 cs))
                else t1)
      in mergeLoop rest cs t2)"

definition mergeToken :: "json \<Rightarrow> colors \<Rightarrow> json" where
  "mergeToken token cs = JObj (mergeLoop (forIn token) cs [])"

section \<open>The world outside the script\<close>

type_synonym bytes = "8 word list"

text \<open>
  What a file holds. \<open>JSON.stringify\<close> and the HTML template are not modelled
  character by character: a file written by them holds the value they were given. A
  token list document is an object whose \<open>tokens\<close> field is an array, with its other
  fields beside it; a file that holds anything else does not parse to one.
\<close>

record tokenlist =
  tokens :: "json list"
  siblings :: "(string \<times> json) list"

datatype content =
    Raw bytes
  | JsonText tokenlist
  | HtmlText "json list"

type_synonym fs = "string \<rightharpoonup> content"

text \<open>
  The collaborators: the HTTP client, the two calls of the palette library on the
  bytes of the temporary file, the clock read while the token at an index is processed,
  and which paths can be written.
\<close>

record world =
  axios_get :: "json \<Rightarrow> error + bytes"
  getPalette :: "bytes \<Rightarrow> error + int list list option"
  getColor :: "bytes \<Rightarrow> error + int list"
  Date_now :: "nat \<Rightarrow> nat"
  writable :: "string \<Rightarrow> bool"

section \<open>downloadImage and processImage\<close>

text \<open>\<open>downloadImage\<close>: any failure of the request is caught and becomes \<open>null\<close>.\<close>

definition downloadImage :: "world \<Rightarrow> json \<Rightarrow> bytes option" where
  "downloadImage w url = (case axios_get w url of Inl e \<Rightarrow> None | Inr d \<Rightarrow> Some d)"

text \<open>\<open>s.padStart(2, '0')\<close>.\<close>

definition padStart2 :: "string \<Rightarrow> string" where
  "padStart2 s = replicate (2 - length s) CHR ''0'' @ s"

definition toHex :: "int list \<Rightarrow> string" where
  "toHex rgb = CHR ''#'' # concat (map (\<lambda>x. padStart2 (toString16 x)) rgb)"

definition tempName :: "nat \<Rightarrow> string" where
  "tempName t = ''temp_'' @ natToString 10 t @ ''.png''"

text \<open>
  \<open>processImage\<close>, with the file system passed through. Every statement of the
  \<open>try\<close> block that can throw has its branch to the \<open>catch\<close> block, which returns
  the fallback colors with the file system as it is at that moment. The temporary file
  is removed by the one \<open>unlink\<close> after both library calls; removing the file just
  written succeeds.
\<close>

definition processImage :: "world \<Rightarrow> nat \<Rightarrow> fs \<Rightarrow> bytes option \<Rightarrow> colors \<times> fs" where
  "processImage w t files imageBuffer =
     (case imageBuffer of
        None \<Rightarrow> (fallback, files)
      | Some buf \<Rightarrow>
          (let tempFile = tempName t in
           if \<not> writable w tempFile then (fallback, files)
           else
             (let files1 = files(tempFile \<mapsto> Raw buf) in
              case getPalette w buf of
                Inl e \<Rightarrow> (fallback, files1)
              | Inr palette \<Rightarrow>
                  (case getColor w buf of
                     Inl e \<Rightarrow> (fallback, files1)
                   | Inr average \<Rightarrow>
                       (let files2 = files1(tempFile := None) in
                        case palette of
                          None \<Rightarrow> (fallback, files2)
                        | Some p \<Rightarrow>
                            (let dominant1 = (case p of [] \<Rightarrow> ''#000000'' | c # cs \<Rightarrow> toHex c);
                                 dominant2 = (case p of
                                     c # d # cs \<Rightarrow> Inr (toHex d)
                                   | _ \<Rightarrow> mixColors dominant1 ''#ffffff'' (1 / 10))
                             in case dominant2 of
                                  Inl e \<Rightarrow> (fallback, files2)
                                | Inr d2 \<Rightarrow>
                                    (\<lparr>averageColor = toHex average, dominantColor1 = dominant1,
                                      dominantColor2 = d2\<rparr>, files2)))))))"

section \<open>processTokenlist\<close>

text \<open>
  The loop over the token indices. A token that is \<open>null\<close> makes \<open>token.logoURI\<close>
  throw, which leaves the loop for the handler of \<open>processTokenlist\<close>. Console output
  is not modelled.
\<close>

function tokenLoop :: "world \<Rightarrow> nat \<Rightarrow> json list \<Rightarrow> fs \<Rightarrow> (error + json list) \<times> fs" where
  "tokenLoop w i toks files =
     (if i < length toks then
        (let token = toks ! i in
         case getProp token ''logoURI'' of
           Inl e \<Rightarrow> (Inl e, files)
         | Inr None \<Rightarrow> tokenLoop w (i + 1) toks files
         | Inr (Some uri) \<Rightarrow>
             if truthy uri then
               (case downloadImage w uri of
                  None \<Rightarrow> tokenLoop w (i + 1) toks files
                | Some buf \<Rightarrow>
                    (case processImage w (Date_now w i) files (Some buf) of
                       (cs, files') \<Rightarrow>
                         tokenLoop w (i + 1) (toks[i := mergeToken token cs]) files'))
             else tokenLoop w (i + 1) toks files)
      else (Inr toks, files))"
  by pat_completeness auto
termination
  by (relation "measure (\<lambda>(w, i, toks, files). length toks - i)") auto


text \<open>
  The tokens the loop passes over without assigning to their slot: no \<open>logoURI\<close>
  property, one that is not truthy, or one whose download gave \<open>null\<close>.
\<close>

definition skipped :: "world \<Rightarrow> json \<Rightarrow> bool" where
  "skipped w token =
     (case getProp token ''logoURI'' of
        Inl e \<Rightarrow> False
      | Inr None \<Rightarrow> True
      | Inr (Some uri) \<Rightarrow> (if truthy uri then downloadImage w uri = None else True))"

section \<open>The specification's record and palette vocabulary\<close>

text \<open>An RGB array as the palette library documents it: three channels in \<open>0..255\<close>.\<close>

definition validRgb :: "int list \<Rightarrow> bool" where
  "validRgb c \<longleftrightarrow> length c = 3 \<and> list_all (\<lambda>x. 0 \<le> x \<and> x \<le> 255) c"



section \<open>Concrete inputs\<close>

text \<open>
  A world in which the download succeeds and the palette library rejects the bytes,
  as it does for a corrupt or unsupported image.
\<close>

definition brokenImageWorld :: world where
  "brokenImageWorld =
     \<lparr>axios_get = (\<lambda>u. Inr [1, 2]),
      getPalette = (\<lambda>b. Inl LibraryError),
      getColor = (\<lambda>b. Inl LibraryError),
      Date_now = (\<lambda>i. 17),
      writable = (\<lambda>p. True)\<rparr>"

text \<open>Worlds in which the palette library returns one red entry, and no entry.\<close>

definition redWorld :: world where
  "redWorld =
     \<lparr>axios_get = (\<lambda>u. Inr [1]),
      getPalette = (\<lambda>b. Inr (Some [[255, 0, 0]])),
      getColor = (\<lambda>b. Inr [255, 0, 0]),
      Date_now = (\<lambda>i. 17),
      writable = (\<lambda>p. True)\<rparr>"

definition blankWorld :: world where
  "blankWorld =
     \<lparr>axios_get = (\<lambda>u. Inr [1]),
      getPalette = (\<lambda>b. Inr (Some [])),
      getColor = (\<lambda>b. Inr [0, 0, 0]),
      Date_now = (\<lambda>i. 17),
      writable = (\<lambda>p. True)\<rparr>"


text \<open>
  A run with no network: every download fails. The collection holds one token without
  a logo and one with a logo.
\<close>

definition offlineWorld :: world where
  "offlineWorld =
     \<lparr>axios_get = (\<lambda>u. Inl IOError),
      getPalette = (\<lambda>b. Inl LibraryError),
      getColor = (\<lambda>b. Inl LibraryError),
      Date_now = (\<lambda>i. 17),
      writable = (\<lambda>p. True)\<rparr>"

definition plainToken :: json where
  "plainToken = JObj [(''symbol'', JStr ''B''), (''name'', JStr ''Bee'')]"

definition logoToken :: json where
  "logoToken = JObj [(''symbol'', JStr ''A''), (''logoURI'', JStr ''http://nowhere.invalid/a.png'')]"


section \<open>Hex digits and channels\<close>

declare natToString.simps [simp del]

lemma lowerHexDigit_cases:
  assumes "lowerHexDigit c"
  shows "hexClass c \<and> hexValue c = digitOf c \<and> digitOf c < 16 \<and> digitChar (digitOf c) = c"
proof -
  have "c = CHR ''0'' \<or> c = CHR ''1'' \<or> c = CHR ''2'' \<or> c = CHR ''3'' \<or> c = CHR ''4''
      \<or> c = CHR ''5'' \<or> c = CHR ''6'' \<or> c = CHR ''7'' \<or> c = CHR ''8'' \<or> c = CHR ''9''
      \<or> c = CHR ''a'' \<or> c = CHR ''b'' \<or> c = CHR ''c'' \<or> c = CHR ''d'' \<or> c = CHR ''e''
      \<or> c = CHR ''f''"
    using assms by (simp add: lowerHexDigit_def)
  then show ?thesis
    by (elim disjE) (simp_all add: hexClass_def hexValue_def digitOf_def digitChar_def)
qed

lemma digitChar_lower: "d < 16 \<Longrightarrow> lowerHexDigit (digitChar d)"
proof -
  assume "d < 16"
  then have "d = 0 \<or> d = 1 \<or> d = 2 \<or> d = 3 \<or> d = 4 \<or> d = 5 \<or> d = 6 \<or> d = 7 \<or> d = 8
      \<or> d = 9 \<or> d = 10 \<or> d = 11 \<or> d = 12 \<or> d = 13 \<or> d = 14 \<or> d = 15" by arith
  then show ?thesis by (auto simp: lowerHexDigit_def digitChar_def)
qed

lemma natToString16_small: "n < 16 \<Longrightarrow> natToString 16 n = [digitChar n]"
  by (subst natToString.simps) simp

lemma natToString16_two:
  assumes "16 \<le> n" "n < 256"
  shows "natToString 16 n = [digitChar (n div 16), digitChar (n mod 16)]"
proof -
  have "n div 16 < 16" using assms by simp
  then show ?thesis using assms
    by (subst natToString.simps) (simp add: natToString16_small)
qed

lemma digitChar_0: "digitChar 0 = CHR ''0''"
  by (simp add: digitChar_def)

lemma pad_hex:
  assumes "n < 256"
  shows "(let hex = natToString 16 n in if length hex = 1 then CHR ''0'' # hex else hex)
         = [digitChar (n div 16), digitChar (n mod 16)]"
proof (cases "n < 16")
  case True
  then show ?thesis by (simp add: natToString16_small digitChar_0)
next
  case False
  then have "16 \<le> n" by simp
  from natToString16_two [OF this assms] show ?thesis by simp
qed

lemma channelHex_twoHex:
  assumes "0 \<le> Math_round x" "Math_round x \<le> 255"
  shows "channelHex x = twoHex (clamp255 (round x))"
proof -
  define n where "n = nat (Math_round x)"
  have n: "Math_round x = int n" and n256: "n < 256" using assms by (simp_all add: n_def)
  have r: "round x = int n" using n by (simp add: round_def Math_round_def)
  have c: "clamp255 (int n) = int n" using n256 by (simp add: clamp255_def)
  have "channelHex x = [digitChar (n div 16), digitChar (n mod 16)]"
    using pad_hex [OF n256] by (simp add: channelHex_def toString16_def n)
  also have "\<dots> = twoHex (clamp255 (round x))"
    by (simp add: twoHex_def r c)
  finally show ?thesis .
qed

lemma validColorE:
  assumes "validColor s"
  obtains d1 d2 d3 d4 d5 d6 where
    "s = [CHR ''#'', d1, d2, d3, d4, d5, d6]"
    "lowerHexDigit d1" "lowerHexDigit d2" "lowerHexDigit d3"
    "lowerHexDigit d4" "lowerHexDigit d5" "lowerHexDigit d6"
proof -
  from assms have len: "length s = 7" by (simp add: validColor_def)
  then obtain c0 d1 d2 d3 d4 d5 d6 where s: "s = [c0, d1, d2, d3, d4, d5, d6]"
    by (auto simp: numeral_eq_Suc length_Suc_conv)
  from assms s have "c0 = CHR ''#''" by (simp add: validColor_def)
  moreover from assms s have "lowerHexDigit d1" "lowerHexDigit d2" "lowerHexDigit d3"
    "lowerHexDigit d4" "lowerHexDigit d5" "lowerHexDigit d6"
    by (simp_all add: validColor_def)
  ultimately show thesis using s that by blast
qed

lemma channelOf_le:
  assumes "lowerHexDigit d1" "lowerHexDigit d2"
  shows "16 * digitOf d1 + digitOf d2 \<le> 255"
  using lowerHexDigit_cases [OF assms(1)] lowerHexDigit_cases [OF assms(2)] by simp

lemma hexToRgb_valid:
  assumes "validColor s"
  shows "hexToRgb s = Some (channelOf s 0, channelOf s 1, channelOf s 2)"
    and "channelOf s 0 \<le> 255" and "channelOf s 1 \<le> 255" and "channelOf s 2 \<le> 255"
proof -
  from assms obtain d1 d2 d3 d4 d5 d6 where
    s: "s = [CHR ''#'', d1, d2, d3, d4, d5, d6]" and
    d: "lowerHexDigit d1" "lowerHexDigit d2" "lowerHexDigit d3"
       "lowerHexDigit d4" "lowerHexDigit d5" "lowerHexDigit d6"
    by (rule validColorE)
  note c = d [THEN lowerHexDigit_cases]
  show "hexToRgb s = Some (channelOf s 0, channelOf s 1, channelOf s 2)"
    using c by (simp add: s hexToRgb_def parseInt16_def channelOf_def)
  show "channelOf s 0 \<le> 255" "channelOf s 1 \<le> 255" "channelOf s 2 \<le> 255"
    using channelOf_le [OF d(1) d(2)] channelOf_le [OF d(3) d(4)] channelOf_le [OF d(5) d(6)]
    by (simp_all add: s channelOf_def)
qed

lemma lerp_bounds:
  fixes ratio :: number
  assumes "0 \<le> ratio" "ratio \<le> 1" "x \<le> 255" "y \<le> 255"
  shows "0 \<le> lerp ratio x y" and "lerp ratio x y \<le> 255"
proof -
  have x: "(of_nat x :: number) \<le> 255" and y: "(of_nat y :: number) \<le> 255"
    using assms(3,4) by (metis of_nat_le_iff of_nat_numeral)+
  show "0 \<le> lerp ratio x y" using assms(1,2) by (simp add: lerp_def)
  have "ratio * of_nat x \<le> ratio * 255"
    using assms(1) x by (simp add: mult_left_mono)
  moreover have "(1 - ratio) * of_nat y \<le> (1 - ratio) * 255"
  proof (rule mult_left_mono [OF y])
    show "0 \<le> 1 - ratio" using assms(2) by simp
  qed
  ultimately have "lerp ratio x y \<le> ratio * 255 + (1 - ratio) * 255"
    unfolding lerp_def by (rule add_mono)
  also have "\<dots> = 255" by (simp add: algebra_simps)
  finally show "lerp ratio x y \<le> 255" .
qed

lemma Math_round_bounds:
  assumes "0 \<le> v" "v \<le> 255"
  shows "0 \<le> Math_round v" and "Math_round v \<le> 255"
proof -
  show "0 \<le> Math_round v" using assms(1) by (simp add: Math_round_def)
  have "v + 1 / 2 < 256" using assms(2) by simp
  then have "\<lfloor>v + 1 / 2\<rfloor> < 256" by (simp add: floor_less_iff)
  then show "Math_round v \<le> 255" by (simp add: Math_round_def)
qed

lemma channelHex_lerp:
  assumes "0 \<le> ratio" "ratio \<le> 1" "x \<le> 255" "y \<le> 255"
  shows "channelHex (of_nat x * ratio + of_nat y * (1 - ratio))
         = twoHex (clamp255 (round (lerp ratio x y)))"
proof -
  have e: "of_nat x * ratio + of_nat y * (1 - ratio) = lerp ratio x y"
    by (simp add: lerp_def mult.commute)
  show ?thesis
    unfolding e
    by (rule channelHex_twoHex)
       (rule Math_round_bounds [OF lerp_bounds [OF assms]])+
qed

lemma twoHex_valid: "list_all lowerHexDigit (twoHex (clamp255 z))"
proof -
  have "nat (clamp255 z) < 256" by (simp add: clamp255_def)
  then have "nat (clamp255 z) div 16 < 16" "nat (clamp255 z) mod 16 < 16" by simp_all
  then show ?thesis by (simp add: twoHex_def digitChar_lower)
qed


lemma mixColors_mixSpec:
  assumes "validColor color1" "validColor color2" "0 \<le> ratio" "ratio \<le> 1"
  shows "mixColors color1 color2 ratio = Inr (mixSpec color1 color2 ratio)"
proof -
  note h1 = hexToRgb_valid [OF assms(1)] and h2 = hexToRgb_valid [OF assms(2)]
  show ?thesis
    by (simp add: mixColors_def h1(1) h2(1) rgbToHex_def mixSpec_def
        channelHex_lerp [OF assms(3,4) h1(2) h2(2)]
        channelHex_lerp [OF assms(3,4) h1(3) h2(3)]
        channelHex_lerp [OF assms(3,4) h1(4) h2(4)] del: One_nat_def)
qed



lemma Math_round_of_nat: "Math_round (of_nat n) = int n"
  unfolding Math_round_def by linarith

lemma channelHex_nat:
  assumes "n < 256"
  shows "channelHex (of_nat n) = [digitChar (n div 16), digitChar (n mod 16)]"
  using pad_hex [OF assms] by (simp add: channelHex_def toString16_def Math_round_of_nat)

lemma channelHex_of_nat:
  assumes "lowerHexDigit d1" "lowerHexDigit d2"
  shows "channelHex (of_nat (16 * digitOf d1 + digitOf d2)) = [d1, d2]"
proof -
  let ?n = "16 * digitOf d1 + digitOf d2"
  note c1 = lowerHexDigit_cases [OF assms(1)] and c2 = lowerHexDigit_cases [OF assms(2)]
  have n: "?n < 256" using c1 c2 by simp
  have dm: "?n div 16 = digitOf d1" "?n mod 16 = digitOf d2" using c1 c2 by simp_all
  have "channelHex (of_nat ?n) = [digitChar (?n div 16), digitChar (?n mod 16)]"
    using n by (rule channelHex_nat)
  then show ?thesis using c1 c2 by (simp only: dm)
qed

lemma rgbToHex_of_valid:
  assumes "validColor s"
  shows "rgbToHex (of_nat (channelOf s 0)) (of_nat (channelOf s 1)) (of_nat (channelOf s 2)) = s"
proof -
  from assms obtain d1 d2 d3 d4 d5 d6 where
    s: "s = [CHR ''#'', d1, d2, d3, d4, d5, d6]" and
    d: "lowerHexDigit d1" "lowerHexDigit d2" "lowerHexDigit d3"
       "lowerHexDigit d4" "lowerHexDigit d5" "lowerHexDigit d6"
    by (rule validColorE)
  show ?thesis
    using channelHex_of_nat [OF d(1) d(2)] channelHex_of_nat [OF d(3) d(4)]
      channelHex_of_nat [OF d(5) d(6)]
    by (simp add: s rgbToHex_def channelOf_def)
qed

lemma mixColors_one:
  assumes "validColor a" "validColor b"
  shows "mixColors a b 1 = Inr a"
  using rgbToHex_of_valid [OF assms(1)]
  by (simp add: mixColors_def hexToRgb_valid(1) [OF assms(1)] hexToRgb_valid(1) [OF assms(2)]
      del: One_nat_def)

lemma mixColors_zero:
  assumes "validColor a" "validColor b"
  shows "mixColors a b 0 = Inr b"
  using rgbToHex_of_valid [OF assms(2)]
  by (simp add: mixColors_def hexToRgb_valid(1) [OF assms(1)] hexToRgb_valid(1) [OF assms(2)]
      del: One_nat_def)

lemma mixColors_same:
  assumes "validColor a"
  shows "mixColors a a ratio = Inr a"
proof -
  have e: "\<And>x :: number. x * ratio + x * (1 - ratio) = x" by (simp add: algebra_simps)
  show ?thesis
    using rgbToHex_of_valid [OF assms]
    by (simp add: mixColors_def hexToRgb_valid(1) [OF assms] e del: One_nat_def)
qed

text \<open>
  Claim C6. For valid \<open>#rrggbb\<close> colors \<open>a\<close> and \<open>b\<close>: mixing at ratio 1 gives
  \<open>a\<close>, mixing at ratio 0 gives \<open>b\<close>, and mixing \<open>a\<close> with itself gives \<open>a\<close>
  for every ratio in \<open>[0, 1]\<close>.
\<close>

theorem mixColors_identities:
  assumes "validColor a" "validColor b"
  shows "mixColors a b 1 = Inr a \<and> mixColors a b 0 = Inr b
       \<and> (\<forall>ratio. 0 \<le> ratio \<and> ratio \<le> 1 \<longrightarrow> mixColors a a ratio = Inr a)"
  using mixColors_one [OF assms] mixColors_zero [OF assms] mixColors_same [OF assms(1)] by simp

theorem mixColors_identities_witness:
  "validColor ''#12ab9f'' \<and> validColor ''#c0ffee''
   \<and> mixColors ''#12ab9f'' ''#c0ffee'' 1 = Inr ''#12ab9f''
   \<and> mixColors ''#12ab9f'' ''#c0ffee'' 0 = Inr ''#c0ffee''
   \<and> (0 :: number) \<le> 1 / 3 \<and> (1 / 3 :: number) \<le> 1
   \<and> mixColors ''#12ab9f'' ''#12ab9f'' (1 / 3) = Inr ''#12ab9f''"
proof -
  have h1: "validColor ''#12ab9f''" and h2: "validColor ''#c0ffee''"
    by (simp_all add: validColor_def lowerHexDigit_def)
  have h3: "(0 :: number) \<le> 1 / 3 \<and> (1 / 3 :: number) \<le> 1" by simp
  show ?thesis using h1 h2 h3 mixColors_identities [OF h1 h2] by blast
qed

lemma hexToRgb_None: "\<not> hexPattern s \<Longrightarrow> hexToRgb s = None"
  by (cases s) (auto simp: hexPattern_def hexToRgb_def hexClass_def)

lemma hexToRgb_Some: "hexPattern s \<Longrightarrow> hexToRgb s \<noteq> None"
  by (cases s) (auto simp: hexPattern_def hexToRgb_def hexClass_def)

text \<open>
  Claim C9. When either color argument of \<open>mixColors\<close> does not match the pattern
  of six hex digits with or without a leading \<open>#\<close>, \<open>mixColors\<close> throws (a
  \<open>TypeError\<close>) and returns no color.
\<close>

theorem mixColors_malformed_throws:
  assumes "\<not> hexPattern color1 \<or> \<not> hexPattern color2"
  shows "mixColors color1 color2 ratio = Inl TypeError"
  using assms hexToRgb_None [of color1] hexToRgb_None [of color2]
  by (auto simp: mixColors_def split: option.splits)

theorem mixColors_malformed_throws_witness:
  "\<not> hexPattern ''#ff00''
   \<and> mixColors ''#ff00'' ''#ffffff'' (1 / 2) = Inl TypeError"
proof -
  have h: "\<not> hexPattern ''#ff00''"
    by (simp add: hexPattern_def)
  show ?thesis using h mixColors_malformed_throws [OF disjI1, OF h] by simp
qed

section \<open>processImage\<close>

lemma padStart2_twoHex:
  assumes "0 \<le> x" "x \<le> 255"
  shows "padStart2 (toString16 x) = twoHex x"
proof -
  define n where "n = nat x"
  have x: "x = int n" and n: "n < 256" using assms by (simp_all add: n_def)
  show ?thesis
  proof (cases "n < 16")
    case True
    then show ?thesis
      by (simp add: x padStart2_def toString16_def natToString16_small twoHex_def digitChar_0)
  next
    case False
    then have "16 \<le> n" by simp
    from natToString16_two [OF this n] show ?thesis
      by (simp add: x padStart2_def toString16_def twoHex_def)
  qed
qed

lemma twoHex_lower:
  assumes "0 \<le> x" "x \<le> 255"
  shows "list_all lowerHexDigit (twoHex x)"
proof -
  have "clamp255 x = x" using assms by (simp add: clamp255_def)
  with twoHex_valid [of x] show ?thesis by simp
qed

lemma toHex_valid:
  assumes "validRgb c"
  shows "validColor (toHex c)"
proof -
  from assms obtain x y z where c: "c = [x, y, z]"
    by (auto simp: validRgb_def numeral_eq_Suc length_Suc_conv)
  from assms c have b: "0 \<le> x" "x \<le> 255" "0 \<le> y" "y \<le> 255" "0 \<le> z" "z \<le> 255"
    by (simp_all add: validRgb_def)
  have l: "\<And>v. length (twoHex v) = 2" by (simp add: twoHex_def)
  show ?thesis
    using twoHex_lower [OF b(1,2)] twoHex_lower [OF b(3,4)] twoHex_lower [OF b(5,6)]
    by (simp add: c toHex_def validColor_def padStart2_twoHex b l)
qed

lemma white_valid: "validColor ''#ffffff''"
  by (simp add: validColor_def lowerHexDigit_def)

text \<open>
  Claim C8. Given the absent sentinel instead of image bytes, \<open>processImage\<close> returns
  exactly the fallback triple: average \<open>#000000\<close>, dominant 1 \<open>#000000\<close>, dominant 2
  \<open>#ffffff\<close>. The file system is untouched.
\<close>

theorem processImage_absent_fallback:
  "processImage w t files None =
     (\<lparr>averageColor = ''#000000'', dominantColor1 = ''#000000'', dominantColor2 = ''#ffffff''\<rparr>,
      files)"
  by (simp add: processImage_def fallback_def)

lemma processImage_single:
  assumes "writable w (tempName t)" "getColor w buf = Inr average"
    "getPalette w buf = Inr (Some [c])" "validRgb c"
  shows "fst (processImage w t files (Some buf)) =
           \<lparr>averageColor = toHex average, dominantColor1 = toHex c,
            dominantColor2 = mixSpec (toHex c) ''#ffffff'' (1 / 10)\<rparr>"
proof -
  have m: "mixColors (toHex c) ''#ffffff'' (1 / 10) = Inr (mixSpec (toHex c) ''#ffffff'' (1 / 10))"
    by (rule mixColors_mixSpec [OF toHex_valid [OF assms(4)] white_valid]) simp_all
  show ?thesis using assms(1-3) by (simp add: processImage_def m Let_def)
qed

lemma processImage_dominant1_empty:
  assumes "getPalette w buf = Inr (Some [])"
  shows "dominantColor1 (fst (processImage w t files (Some buf))) = ''#000000''"
  using assms
  by (simp add: processImage_def fallback_def Let_def split: sum.splits option.splits)

text \<open>
  Claim C7. When both library calls succeed: with a palette of exactly one (well-formed)
  entry, dominant color 1 is that entry in hex and dominant color 2 is
  \<open>mixColors(dominantColor1, '#ffffff', 0.1)\<close>; with an empty palette, dominant color 1
  is \<open>#000000\<close>.
\<close>

theorem processImage_single_entry_palette:
  assumes "writable w (tempName t)" "getColor w buf = Inr average"
  shows "(getPalette w buf = Inr (Some [c]) \<and> validRgb c \<longrightarrow>
            dominantColor1 (fst (processImage w t files (Some buf))) = toHex c \<and>
            mixColors (dominantColor1 (fst (processImage w t files (Some buf)))) ''#ffffff'' (1 / 10)
              = Inr (dominantColor2 (fst (processImage w t files (Some buf)))))
       \<and> (getPalette w buf = Inr (Some []) \<longrightarrow>
            dominantColor1 (fst (processImage w t files (Some buf))) = ''#000000'')"
proof (intro conjI impI)
  assume a: "getPalette w buf = Inr (Some [c]) \<and> validRgb c"
  then have m: "mixColors (toHex c) ''#ffffff'' (1 / 10) = Inr (mixSpec (toHex c) ''#ffffff'' (1 / 10))"
    by (intro mixColors_mixSpec toHex_valid white_valid) simp_all
  from a have p: "fst (processImage w t files (Some buf)) =
           \<lparr>averageColor = toHex average, dominantColor1 = toHex c,
            dominantColor2 = mixSpec (toHex c) ''#ffffff'' (1 / 10)\<rparr>"
    using processImage_single [OF assms] by simp
  show "dominantColor1 (fst (processImage w t files (Some buf))) = toHex c" by (simp add: p)
  show "mixColors (dominantColor1 (fst (processImage w t files (Some buf)))) ''#ffffff'' (1 / 10)
              = Inr (dominantColor2 (fst (processImage w t files (Some buf))))"
    by (simp add: p m)
next
  assume "getPalette w buf = Inr (Some [])"
  then show "dominantColor1 (fst (processImage w t files (Some buf))) = ''#000000''"
    by (rule processImage_dominant1_empty)
qed

lemma tempName_17: "tempName 17 = ''temp_17.png''"
  by code_simp

text \<open>
  Claim C3 says that no temporary file outlives a call of \<open>processImage\<close> on present
  bytes, whether the extraction succeeds or throws. When the palette library throws, the
  \<open>catch\<close> block is reached before \<open>unlink\<close>: starting from an empty file system the
  call returns the fallback colors and leaves \<open>temp_17.png\<close> behind.
\<close>

theorem processImage_leaves_temp_file:
  "processImage brokenImageWorld 17 Map.empty (Some [1, 2])
     = (fallback, [''temp_17.png'' \<mapsto> Raw [1, 2]])"
  by (simp add: processImage_def brokenImageWorld_def tempName_17)

theorem processImage_single_entry_palette_witness:
  "writable redWorld (tempName 17) \<and> getColor redWorld [1] = Inr [255, 0, 0]
   \<and> getPalette redWorld [1] = Inr (Some [[255, 0, 0]]) \<and> validRgb [255, 0, 0]
   \<and> dominantColor1 (fst (processImage redWorld 17 Map.empty (Some [1]))) = toHex [255, 0, 0]
   \<and> mixColors (dominantColor1 (fst (processImage redWorld 17 Map.empty (Some [1])))) ''#ffffff'' (1 / 10)
       = Inr (dominantColor2 (fst (processImage redWorld 17 Map.empty (Some [1]))))
   \<and> writable blankWorld (tempName 17) \<and> getColor blankWorld [1] = Inr [0, 0, 0]
   \<and> getPalette blankWorld [1] = Inr (Some [])
   \<and> dominantColor1 (fst (processImage blankWorld 17 Map.empty (Some [1]))) = ''#000000''"
proof -
  have v: "validRgb [255, 0, 0]" by (simp add: validRgb_def)
  have a: "writable redWorld (tempName 17)" "getColor redWorld [1] = Inr [255, 0, 0]"
    "getPalette redWorld [1] = Inr (Some [[255, 0, 0]])" by (simp_all add: redWorld_def)
  have b: "writable blankWorld (tempName 17)" "getColor blankWorld [1] = Inr [0, 0, 0]"
    "getPalette blankWorld [1] = Inr (Some [])" by (simp_all add: blankWorld_def)
  show ?thesis
    using processImage_single_entry_palette [OF a(1,2), of "[255, 0, 0]" Map.empty]
      processImage_single_entry_palette [OF b(1,2), of "[255, 0, 0]" Map.empty]
      v a b
    by blast
qed

section \<open>The merge\<close>













section \<open>The batch driver\<close>

declare tokenLoop.simps [simp del]

lemma tokenLoop_frame:
  "tokenLoop w i toks files = (Inr out, files') \<Longrightarrow>
   length out = length toks \<and>
   (\<forall>j < length toks. (j < i \<or> skipped w (toks ! j)) \<longrightarrow> out ! j = toks ! j)"
proof (induction w i toks files rule: tokenLoop.induct)
  case (1 w i toks files)
  show ?case
  proof (cases "i < length toks")
    case False
    with "1.prems" show ?thesis by (simp add: tokenLoop.simps [of w i toks files])
  next
    case True
    note i = True
    show ?thesis
    proof (cases "getProp (toks ! i) ''logoURI''")
      case (Inl e)
      with "1.prems" i show ?thesis by (simp add: tokenLoop.simps [of w i toks files])
    next
      case (Inr logo)
      show ?thesis
      proof (cases "skipped w (toks ! i)")
        case True
        with Inr i "1.prems" have r: "tokenLoop w (i + 1) toks files = (Inr out, files')"
          by (auto simp: tokenLoop.simps [of w i toks files] skipped_def
              split: option.splits if_splits)
        have "length out = length toks \<and>
          (\<forall>j < length toks. (j < i + 1 \<or> skipped w (toks ! j)) \<longrightarrow> out ! j = toks ! j)"
          using True Inr i "1.IH"(1,2,4) r
          by (auto simp: skipped_def split: option.splits if_splits)
        then show ?thesis by auto
      next
        case False
        with Inr obtain uri buf where u: "logo = Some uri" "truthy uri" "downloadImage w uri = Some buf"
          by (auto simp: skipped_def split: option.splits if_splits)
        obtain cs fs1 where p: "processImage w (Date_now w i) files (Some buf) = (cs, fs1)"
          by (cases "processImage w (Date_now w i) files (Some buf)")
        let ?toks = "toks[i := mergeToken (toks ! i) cs]"
        from "1.prems" i Inr u p have r: "tokenLoop w (i + 1) ?toks fs1 = (Inr out, files')"
          by (simp add: tokenLoop.simps [of w i toks files])
        have ih: "length out = length ?toks \<and>
          (\<forall>j < length ?toks. (j < i + 1 \<or> skipped w (?toks ! j)) \<longrightarrow> out ! j = ?toks ! j)"
          using "1.IH"(3) [OF i refl Inr u(1) u(2) u(3) p [symmetric] r] .
        show ?thesis
        proof (intro conjI allI impI)
          show "length out = length toks" using ih by simp
        next
          fix j assume j: "j < length toks" and c: "j < i \<or> skipped w (toks ! j)"
          from c False have ji: "j \<noteq> i" by auto
          then have "?toks ! j = toks ! j" by simp
          moreover have "j < i + 1 \<or> skipped w (?toks ! j)" using c ji by auto
          ultimately show "out ! j = toks ! j" using ih j by auto
        qed
      qed
    qed
  qed
qed

lemma getProp_Inl: "getProp v k = Inl e \<Longrightarrow> v = JNull"
  by (cases v) simp_all

lemma mergeToken_not_null: "mergeToken token cs \<noteq> JNull"
  by (simp add: mergeToken_def)

lemma tokenLoop_total:
  "JNull \<notin> set toks \<Longrightarrow> \<exists>out files'. tokenLoop w i toks files = (Inr out, files')"
proof (induction w i toks files rule: tokenLoop.induct)
  case (1 w i toks files)
  show ?case
  proof (cases "i < length toks")
    case False
    then show ?thesis by (simp add: tokenLoop.simps [of w i toks files])
  next
    case True
    note i = True
    then have nn: "toks ! i \<noteq> JNull" using "1.prems" by (metis nth_mem)
    show ?thesis
    proof (cases "getProp (toks ! i) ''logoURI''")
      case (Inl e)
      with nn show ?thesis using getProp_Inl by blast
    next
      case (Inr logo)
      show ?thesis
      proof (cases "skipped w (toks ! i)")
        case True
        have "\<exists>out files'. tokenLoop w (i + 1) toks files = (Inr out, files')"
          using True Inr i "1.IH"(1,2,4) "1.prems"
          by (auto simp: skipped_def split: option.splits if_splits)
        moreover have "tokenLoop w i toks files = tokenLoop w (i + 1) toks files"
          using True Inr i
          by (auto simp: tokenLoop.simps [of w i toks files] skipped_def
              split: option.splits if_splits)
        ultimately show ?thesis by simp
      next
        case False
        with Inr obtain uri buf where u: "logo = Some uri" "truthy uri" "downloadImage w uri = Some buf"
          by (auto simp: skipped_def split: option.splits if_splits)
        obtain cs fs1 where p: "processImage w (Date_now w i) files (Some buf) = (cs, fs1)"
          by (cases "processImage w (Date_now w i) files (Some buf)")
        let ?toks = "toks[i := mergeToken (toks ! i) cs]"
        have "set ?toks \<subseteq> insert (mergeToken (toks ! i) cs) (set toks)"
          by (rule set_update_subset_insert)
        then have n: "JNull \<notin> set ?toks"
          using "1.prems" mergeToken_not_null [of "toks ! i" cs] by (metis insertE subsetD)
        have "tokenLoop w i toks files = tokenLoop w (i + 1) ?toks fs1"
          using i Inr u p by (simp add: tokenLoop.simps [of w i toks files])
        then show ?thesis
          using "1.IH"(3) [OF i refl Inr u(1) u(2) u(3) p [symmetric] n] by simp
      qed
    qed
  qed
qed

lemma offline_loop:
  "tokenLoop offlineWorld 0 [plainToken, logoToken] files = (Inr [plainToken, logoToken], files)"
proof -
  have 2: "tokenLoop offlineWorld (Suc (Suc 0)) [plainToken, logoToken] files
           = (Inr [plainToken, logoToken], files)"
    by (subst tokenLoop.simps) simp
  have 1: "tokenLoop offlineWorld (Suc 0) [plainToken, logoToken] files
           = tokenLoop offlineWorld (Suc (Suc 0)) [plainToken, logoToken] files"
    by (subst tokenLoop.simps) (simp add: logoToken_def offlineWorld_def downloadImage_def)
  have 0: "tokenLoop offlineWorld 0 [plainToken, logoToken] files
           = tokenLoop offlineWorld (Suc 0) [plainToken, logoToken] files"
    by (subst tokenLoop.simps) (simp add: plainToken_def)
  show ?thesis by (simp only: 0 1 2)
qed

text \<open>
  Claim C4. A token record without a logo key is left as it is by the loop: whenever the
  loop returns, the collection has the same length and the same record at that index,
  with no field added; and the loop does return when no token is \<open>null\<close>.
\<close>

theorem tokenLoop_keeps_logoless_token:
  assumes "j < length toks" "toks ! j = JObj kvs" "''logoURI'' \<notin> fst ` set kvs"
  shows "(\<forall>out files'. tokenLoop w 0 toks files = (Inr out, files') \<longrightarrow>
            length out = length toks \<and> out ! j = toks ! j)
       \<and> (JNull \<notin> set toks \<longrightarrow> (\<exists>out files'. tokenLoop w 0 toks files = (Inr out, files')))"
proof -
  have "map_of kvs ''logoURI'' = None" using assms(3) by (simp add: map_of_eq_None_iff)
  then have s: "skipped w (toks ! j)" using assms(2) by (simp add: skipped_def)
  show ?thesis using tokenLoop_frame [of w 0 toks files] tokenLoop_total [of toks w 0 files] s assms(1)
    by blast
qed

theorem tokenLoop_keeps_logoless_token_witness:
  "0 < length [plainToken, logoToken]
   \<and> [plainToken, logoToken] ! 0 = JObj [(''symbol'', JStr ''B''), (''name'', JStr ''Bee'')]
   \<and> ''logoURI'' \<notin> fst ` set [(''symbol'', JStr ''B''), (''name'', JStr ''Bee'')]
   \<and> JNull \<notin> set [plainToken, logoToken]
   \<and> tokenLoop offlineWorld 0 [plainToken, logoToken] Map.empty
       = (Inr [plainToken, logoToken], Map.empty)
   \<and> length [plainToken, logoToken] = length [plainToken, logoToken]
   \<and> [plainToken, logoToken] ! 0 = [plainToken, logoToken] ! 0"
proof -
  have h1: "0 < length [plainToken, logoToken]" by simp
  have h2: "[plainToken, logoToken] ! 0 = JObj [(''symbol'', JStr ''B''), (''name'', JStr ''Bee'')]"
    by (simp add: plainToken_def)
  have h3: "''logoURI'' \<notin> fst ` set [(''symbol'', JStr ''B''), (''name'', JStr ''Bee'')]" by simp
  have h4: "JNull \<notin> set [plainToken, logoToken]" by (simp add: plainToken_def logoToken_def)
  have h5: "tokenLoop offlineWorld 0 [plainToken, logoToken] Map.empty
       = (Inr [plainToken, logoToken], Map.empty)" by (rule offline_loop)
  show ?thesis
    using h1 h2 h3 h4 h5
      tokenLoop_keeps_logoless_token [OF h1 h2 h3, of offlineWorld Map.empty]
    by blast
qed




end
